theory Spec2Isabelle
  imports Main
begin

section \<open>Go values used by package sentinel\<close>

text \<open>
  A \<^verbatim>\<open>*miniredis.Miniredis\<close> is a pointer to a data node that the package never
  dereferences: \<open>None\<close> is Go's \<^verbatim>\<open>nil\<close>, \<open>Some a\<close> the node at address \<open>a\<close>.
\<close>

type_synonym Miniredis_ptr = "nat option"

text \<open>
  A Go slice is a header (backing array, offset into it, length, capacity); the nil
  slice is \<open>None\<close>. The empty literal \<^verbatim>\<open>[]*miniredis.Miniredis{}\<close> is a header of length
  and capacity 0, which is not nil. Backing arrays live in a store, indexed by address,
  so that two headers can share one array.
\<close>

record slice_hdr =
  arr :: nat
  off :: nat
  len :: nat
  cap :: nat

type_synonym slice = "slice_hdr option"

type_synonym store = "Miniredis_ptr list list"

definition slice_len :: "slice \<Rightarrow> nat" where
  "slice_len s = (case s of None \<Rightarrow> 0 | Some sl \<Rightarrow> len sl)"

definition slice_cap :: "slice \<Rightarrow> nat" where
  "slice_cap s = (case s of None \<Rightarrow> 0 | Some sl \<Rightarrow> cap sl)"

text \<open>The elements a reader of the slice sees: the first \<open>len\<close> cells from \<open>off\<close>.\<close>

definition slice_elems :: "store \<Rightarrow> slice \<Rightarrow> Miniredis_ptr list" where
  "slice_elems h s =
     (case s of None \<Rightarrow> [] | Some sl \<Rightarrow> take (len sl) (drop (off sl) (h ! arr sl)))"

text \<open>A header is well formed in a store when its window lies inside an allocated array.\<close>

definition wf_slice :: "store \<Rightarrow> slice \<Rightarrow> bool" where
  "wf_slice h s =
     (case s of None \<Rightarrow> True
      | Some sl \<Rightarrow> arr sl < length h \<and> len sl \<le> cap sl
                   \<and> off sl + cap sl \<le> length (h ! arr sl))"

text \<open>
  The builtin \<^verbatim>\<open>append(s, x)\<close> for one element. With spare capacity it writes the cell
  after the last element of the shared backing array and returns a longer header on the
  same array. Without, it allocates a new array, copies the elements and adds \<open>x\<close>. The
  language leaves the new capacity to the runtime (at least what is needed): \<open>grow\<close>
  is the runtime's choice from the old capacity.
\<close>

definition go_append :: "(nat \<Rightarrow> nat) \<Rightarrow> store \<Rightarrow> slice \<Rightarrow> Miniredis_ptr \<Rightarrow> store \<times> slice" where
  "go_append grow h s x =
     (case s of
        Some sl \<Rightarrow>
          if len sl < cap sl
          then (h[arr sl := (h ! arr sl)[off sl + len sl := x]], Some (sl\<lparr>len := len sl + 1\<rparr>))
          else (let c = max (len sl + 1) (grow (cap sl))
                in (h @ [slice_elems h s @ [x] @ replicate (c - (len sl + 1)) None],
                    Some \<lparr>arr = length h, off = 0, len = len sl + 1, cap = c\<rparr>))
      | None \<Rightarrow>
          (let c = max 1 (grow 0)
           in (h @ [[x] @ replicate (c - 1) None],
               Some \<lparr>arr = length h, off = 0, len = 1, cap = c\<rparr>)))"

text \<open>The composite literal \<^verbatim>\<open>[]*miniredis.Miniredis{x}\<close>: a new array of one cell.\<close>

definition slice_literal1 :: "store \<Rightarrow> Miniredis_ptr \<Rightarrow> store \<times> slice" where
  "slice_literal1 h x = (h @ [[x]], Some \<lparr>arr = length h, off = 0, len = 1, cap = 1\<rparr>)"

section \<open>options.go\<close>

record Options =
  masterName :: string
  master :: Miniredis_ptr
  replicas :: slice

text \<open>\<^verbatim>\<open>type Option func(*Options)\<close>: a mutator of the options under construction.\<close>

type_synonym Option = "Options \<Rightarrow> Options"

definition defaultOptions :: Options where
  "defaultOptions = \<lparr>masterName = ''mymaster'', master = None, replicas = None\<rparr>"

definition WithMasterName :: "string \<Rightarrow> Option" where
  "WithMasterName name = (\<lambda>o'. o'\<lparr>masterName := name\<rparr>)"

definition WithMaster :: "Miniredis_ptr \<Rightarrow> Option" where
  "WithMaster m = (\<lambda>o'. o'\<lparr>master := m\<rparr>)"

definition WithReplicas :: "slice \<Rightarrow> Option" where
  "WithReplicas rs = (\<lambda>o'. o'\<lparr>replicas := rs\<rparr>)"

text \<open>
  Modelled from the spec: \<^verbatim>\<open>copystructure.Copy\<close>, a function of an external library,
  is what the spec calls a deep copy of the canonical defaults. The defaults hold a nil
  pointer and a nil slice, so the copy shares no array with them: on values it is the
  identity.
\<close>

definition copystructure_Copy :: "Options \<Rightarrow> Options" where
  "copystructure_Copy d = d"

definition GetOpts :: "Option list \<Rightarrow> Options" where
  "GetOpts opt = foldl (\<lambda>opts f. f opts) (copystructure_Copy defaultOptions) opt"

section \<open>sentinel.go\<close>

subsection \<open>The connection server, as far as the package uses it\<close>

record TCPAddr =
  tcp_IP :: string
  tcp_Port :: int

text \<open>
  A \<^verbatim>\<open>server.Server\<close> (external): its bound address, the number of connected
  clients, the number of connections since it started, and the registered commands.
\<close>

record Server =
  addr :: TCPAddr
  peers :: nat
  infoConns :: int
  cmds :: "string list"

text \<open>Decimal rendering, as \<^verbatim>\<open>strconv.Itoa\<close> and the verb \<^verbatim>\<open>%d\<close> give it.\<close>

definition digit :: "nat \<Rightarrow> char" where
  "digit d = ''0123456789'' ! d"

function FormatUint :: "nat \<Rightarrow> string" where
  "FormatUint n = (if n < 10 then [digit n] else FormatUint (n div 10) @ [digit (n mod 10)])"
  by pat_completeness auto
termination
  by (relation "measure id") auto

definition Itoa :: "int \<Rightarrow> string" where
  "Itoa i = (if i < 0 then CHR ''-'' # FormatUint (nat (- i)) else FormatUint (nat i))"

text \<open>\<^verbatim>\<open>net.JoinHostPort\<close>: a host with a colon (IPv6) goes in brackets.\<close>

definition JoinHostPort :: "string \<Rightarrow> string \<Rightarrow> string" where
  "JoinHostPort host p =
     (if CHR '':'' \<in> set host then ''['' @ host @ '']:'' @ p else host @ '':'' @ p)"

definition TCPAddr_String :: "TCPAddr \<Rightarrow> string" where
  "TCPAddr_String a = JoinHostPort (tcp_IP a) (Itoa (tcp_Port a))"

text \<open>
  A run-time panic. The methods of \<^verbatim>\<open>server.Server\<close> read fields of their receiver,
  so on a nil \<^verbatim>\<open>*server.Server\<close> they panic with a nil pointer dereference.
\<close>

datatype panic = NilDereference

subsection \<open>The controller\<close>

text \<open>
  The embedded \<^verbatim>\<open>sync.Mutex\<close> is kept as the log of the calls made on it. A method
  call runs to its end before the next one starts, so the mutex is free at every
  \<^verbatim>\<open>Lock\<close> and no call blocks.
\<close>

datatype mutex_call = LockCall | UnlockCall

record Sentinel =
  Mutex :: "mutex_call list"
  srv :: "Server option"
  port :: int
  password :: string
  signal :: bool
  master :: Miniredis_ptr
  replicas :: slice

definition Lock :: "Sentinel \<Rightarrow> Sentinel" where
  "Lock s = s\<lparr>Mutex := Mutex s @ [LockCall]\<rparr>"

definition Unlock :: "Sentinel \<Rightarrow> Sentinel" where
  "Unlock s = s\<lparr>Mutex := Mutex s @ [UnlockCall]\<rparr>"

text \<open>\<^verbatim>\<open>Sentinel{}\<close>: every field at its zero value; \<open>signal\<close> says whether the condition
  variable has been made.\<close>

definition zero_Sentinel :: Sentinel where
  "zero_Sentinel = \<lparr>Mutex = [], srv = None, port = 0, password = [], signal = False,
                    master = None, replicas = None\<rparr>"

definition NewSentinel :: "store \<Rightarrow> Option list \<Rightarrow> store \<times> Sentinel" where
  "NewSentinel h opts =
     (let s = zero_Sentinel\<lparr>signal := True\<rparr>;
          o' = GetOpts opts;
          (h1, s1) = (if Options.master o' \<noteq> None
                      then (let (h', lit) = slice_literal1 h (Options.master o')
                            in (h', s\<lparr>master := Options.master o', replicas := lit\<rparr>))
                      else (h, s));
          s2 = (if Options.replicas o' \<noteq> None then s1\<lparr>replicas := Options.replicas o'\<rparr> else s1)
      in (h1, s2))"

text \<open>The method \<^verbatim>\<open>(*Sentinel).WithMaster\<close>; the option of the same name is above.\<close>

definition Sentinel_WithMaster :: "Miniredis_ptr \<Rightarrow> Sentinel \<Rightarrow> Sentinel" where
  "Sentinel_WithMaster m s = s\<lparr>master := m\<rparr>"

definition Master :: "Sentinel \<Rightarrow> Miniredis_ptr" where
  "Master s = Sentinel.master s"

definition AddReplica :: "(nat \<Rightarrow> nat) \<Rightarrow> Miniredis_ptr \<Rightarrow> store \<times> Sentinel \<Rightarrow> store \<times> Sentinel" where
  "AddReplica grow r hs =
     (let (h, s) = hs; (h', rs) = go_append grow h (Sentinel.replicas s) r
      in (h', s\<lparr>replicas := rs\<rparr>))"

definition SetReplicas :: "slice \<Rightarrow> Sentinel \<Rightarrow> Sentinel" where
  "SetReplicas rs s = s\<lparr>replicas := rs\<rparr>"

definition Replicas :: "Sentinel \<Rightarrow> slice" where
  "Replicas s = Sentinel.replicas s"

text \<open>What a caller of \<^verbatim>\<open>Replicas()\<close> reads through the returned slice.\<close>

definition Replicas_elems :: "store \<times> Sentinel \<Rightarrow> Miniredis_ptr list" where
  "Replicas_elems hs = slice_elems (fst hs) (Replicas (snd hs))"

subsection \<open>Lifecycle\<close>

text \<open>
  Modelled from the spec: \<^verbatim>\<open>commandsPing\<close> is in a file of the package that is not
  among the sources; start "registers command handlers (minimally PING)" on the
  listener it has just stored.
\<close>

definition commandsPing :: "Sentinel \<Rightarrow> Sentinel" where
  "commandsPing s = s\<lparr>srv := map_option (\<lambda>v. v\<lparr>cmds := cmds v @ [''PING'']\<rparr>) (srv s)\<rparr>"

text \<open>A Go \<^verbatim>\<open>error\<close> value, by its message; \<open>None\<close> is the nil error.\<close>

type_synonym error = string

text \<open>
  \<^verbatim>\<open>server.NewServer\<close> asks the operating system to bind an address; what it answers
  is not the package's to decide, so each call takes the answer as the function
  \<open>NewServer\<close> from the address to an error or a listening server.
\<close>

type_synonym bind = "string \<Rightarrow> error + Server"

definition start :: "Server \<Rightarrow> Sentinel \<Rightarrow> error option \<times> Sentinel" where
  "start v s =
     (let s1 = Lock s;
          s2 = s1\<lparr>srv := Some v\<rparr>;
          s3 = s2\<lparr>port := tcp_Port (addr v)\<rparr>;
          s4 = commandsPing s3
      in (None, Unlock s4))"

definition Start :: "bind \<Rightarrow> Sentinel \<Rightarrow> error option \<times> Sentinel" where
  "Start NewServer s =
     (case NewServer (''127.0.0.1:'' @ Itoa (port s)) of
        Inl err \<Rightarrow> (Some err, s)
      | Inr v \<Rightarrow> start v s)"

definition StartAddr :: "bind \<Rightarrow> string \<Rightarrow> Sentinel \<Rightarrow> error option \<times> Sentinel" where
  "StartAddr NewServer a s =
     (case NewServer a of
        Inl err \<Rightarrow> (Some err, s)
      | Inr v \<Rightarrow> start v s)"

definition Restart :: "bind \<Rightarrow> Sentinel \<Rightarrow> error option \<times> Sentinel" where
  "Restart NewServer s = Start NewServer s"

text \<open>
  \<^verbatim>\<open>Close\<close> returns nothing; the second component is the server whose own
  \<^verbatim>\<open>Close()\<close> is called after the unlock, if there is one.
\<close>

definition Close :: "Sentinel \<Rightarrow> Sentinel \<times> Server option" where
  "Close s =
     (let s1 = Lock s
      in (case srv s1 of
            None \<Rightarrow> (Unlock s1, None)
          | Some v \<Rightarrow> (Unlock (s1\<lparr>srv := None\<rparr>), Some v)))"

definition RequireAuth :: "string \<Rightarrow> Sentinel \<Rightarrow> Sentinel" where
  "RequireAuth pw s = Unlock ((Lock s)\<lparr>password := pw\<rparr>)"

subsection \<open>Introspection\<close>

text \<open>
  Each query returns its value or panics; the deferred \<^verbatim>\<open>Unlock\<close> runs in both
  cases. The second component is the controller after the call.
\<close>

definition Addr :: "Sentinel \<Rightarrow> (panic + string) \<times> Sentinel" where
  "Addr s =
     (let s1 = Lock s
      in ((case srv s1 of None \<Rightarrow> Inl NilDereference
           | Some v \<Rightarrow> Inr (TCPAddr_String (addr v))), Unlock s1))"

definition Host :: "Sentinel \<Rightarrow> (panic + string) \<times> Sentinel" where
  "Host s =
     (let s1 = Lock s
      in ((case srv s1 of None \<Rightarrow> Inl NilDereference
           | Some v \<Rightarrow> Inr (tcp_IP (addr v))), Unlock s1))"

definition Port :: "Sentinel \<Rightarrow> (panic + string) \<times> Sentinel" where
  "Port s =
     (let s1 = Lock s
      in ((case srv s1 of None \<Rightarrow> Inl NilDereference
           | Some v \<Rightarrow> Inr (Itoa (tcp_Port (addr v)))), Unlock s1))"

definition CurrentConnectionCount :: "Sentinel \<Rightarrow> (panic + int) \<times> Sentinel" where
  "CurrentConnectionCount s =
     (let s1 = Lock s
      in ((case srv s1 of None \<Rightarrow> Inl NilDereference
           | Some v \<Rightarrow> Inr (int (peers v))), Unlock s1))"

definition TotalConnectionCount :: "Sentinel \<Rightarrow> (panic + int) \<times> Sentinel" where
  "TotalConnectionCount s =
     (let s1 = Lock s
      in ((case srv s1 of None \<Rightarrow> Inl NilDereference
           | Some v \<Rightarrow> Inr (infoConns v)), Unlock s1))"

subsection \<open>The auth gate\<close>

record connCtx =
  authenticated :: bool

text \<open>A reply written to a connection; \<^verbatim>\<open>WriteError\<close> writes an error reply.\<close>

datatype reply = ErrorReply string

text \<open>
  A \<^verbatim>\<open>server.Peer\<close> (external): its context slot and what has been written to it.
  The listener belongs to the controller and only \<^verbatim>\<open>getCtx\<close> stores into the
  slot, so it is nil or holds a \<^verbatim>\<open>*connCtx\<close>.
\<close>

record Peer =
  Ctx :: "connCtx option"
  written :: "reply list"

definition WriteError :: "string \<Rightarrow> Peer \<Rightarrow> Peer" where
  "WriteError e c = c\<lparr>written := written c @ [ErrorReply e]\<rparr>"

text \<open>\<^verbatim>\<open>getCtx\<close> returns the context and the peer, whose empty slot it has filled.\<close>

definition getCtx :: "Peer \<Rightarrow> connCtx \<times> Peer" where
  "getCtx c =
     (case Ctx c of
        None \<Rightarrow> (let ctx = \<lparr>authenticated = False\<rparr> in (ctx, c\<lparr>Ctx := Some ctx\<rparr>))
      | Some ctx \<Rightarrow> (ctx, c))"

definition handleAuth :: "Sentinel \<Rightarrow> Peer \<Rightarrow> bool \<times> Sentinel \<times> Peer" where
  "handleAuth s c =
     (let s1 = Lock s
      in if password s1 = [] then (True, Unlock s1, c)
         else (let (ctx, c1) = getCtx c
               in if \<not> authenticated ctx
                  then (False, Unlock s1, WriteError ''NOAUTH Authentication required.'' c1)
                  else (True, Unlock s1, c1)))"

definition setAuthenticated :: "Peer \<Rightarrow> Peer" where
  "setAuthenticated c = (let (ctx, c1) = getCtx c in c1\<lparr>Ctx := Some (ctx\<lparr>authenticated := True\<rparr>)\<rparr>)"

text \<open>The flag of a connection; a connection with no context yet has not authenticated.\<close>

definition is_authenticated :: "Peer \<Rightarrow> bool" where
  "is_authenticated c = (case Ctx c of None \<Rightarrow> False | Some ctx \<Rightarrow> authenticated ctx)"

section \<open>Systems of controllers and connections\<close>

text \<open>
  One controller and one connection of its listener over the store, under the
  operations of the package. The results of the queries and the errors of the starts go
  to the caller; the step keeps the store, the controller and the connection.
\<close>

datatype core_op =
    OpRequireAuth string
  | OpHandleAuth
  | OpGetCtx
  | OpSetAuthenticated
  | OpWithMaster Miniredis_ptr
  | OpAddReplica Miniredis_ptr
  | OpSetReplicas slice
  | OpStart bind
  | OpStartAddr bind string
  | OpRestart bind
  | OpClose
  | OpAddr
  | OpHost
  | OpPort
  | OpCurrentConnectionCount
  | OpTotalConnectionCount

fun core_step :: "(nat \<Rightarrow> nat) \<Rightarrow> store \<times> Sentinel \<times> Peer \<Rightarrow> core_op \<Rightarrow> store \<times> Sentinel \<times> Peer" where
  "core_step grow (h, s, c) (OpRequireAuth pw) = (h, RequireAuth pw s, c)"
| "core_step grow (h, s, c) OpHandleAuth = (h, snd (handleAuth s c))"
| "core_step grow (h, s, c) OpGetCtx = (h, s, snd (getCtx c))"
| "core_step grow (h, s, c) OpSetAuthenticated = (h, s, setAuthenticated c)"
| "core_step grow (h, s, c) (OpWithMaster m) = (h, Sentinel_WithMaster m s, c)"
| "core_step grow (h, s, c) (OpAddReplica r) =
     (fst (AddReplica grow r (h, s)), snd (AddReplica grow r (h, s)), c)"
| "core_step grow (h, s, c) (OpSetReplicas rs) = (h, SetReplicas rs s, c)"
| "core_step grow (h, s, c) (OpStart NewServer) = (h, snd (Start NewServer s), c)"
| "core_step grow (h, s, c) (OpStartAddr NewServer a) = (h, snd (StartAddr NewServer a s), c)"
| "core_step grow (h, s, c) (OpRestart NewServer) = (h, snd (Restart NewServer s), c)"
| "core_step grow (h, s, c) OpClose = (h, fst (Close s), c)"
| "core_step grow (h, s, c) OpAddr = (h, snd (Addr s), c)"
| "core_step grow (h, s, c) OpHost = (h, snd (Host s), c)"
| "core_step grow (h, s, c) OpPort = (h, snd (Port s), c)"
| "core_step grow (h, s, c) OpCurrentConnectionCount = (h, snd (CurrentConnectionCount s), c)"
| "core_step grow (h, s, c) OpTotalConnectionCount = (h, snd (TotalConnectionCount s), c)"

definition core_run :: "(nat \<Rightarrow> nat) \<Rightarrow> core_op list \<Rightarrow> store \<times> Sentinel \<times> Peer \<Rightarrow> store \<times> Sentinel \<times> Peer" where
  "core_run grow ops st = foldl (core_step grow) st ops"

text \<open>
  Two controllers over one store of backing arrays. A call \<open>(True, r)\<close> is
  \<^verbatim>\<open>AddReplica(r)\<close> on the first controller, \<open>(False, r)\<close> on the second.
\<close>

fun add_step :: "(nat \<Rightarrow> nat) \<Rightarrow> store \<times> Sentinel \<times> Sentinel \<Rightarrow> bool \<times> Miniredis_ptr \<Rightarrow> store \<times> Sentinel \<times> Sentinel" where
  "add_step grow (h, s1, s2) (first, r) =
     (if first then (let (h', s1') = AddReplica grow r (h, s1) in (h', s1', s2))
      else (let (h', s2') = AddReplica grow r (h, s2) in (h', s1, s2')))"

definition add_run :: "(nat \<Rightarrow> nat) \<Rightarrow> (bool \<times> Miniredis_ptr) list \<Rightarrow> store \<times> Sentinel \<times> Sentinel \<Rightarrow> store \<times> Sentinel \<times> Sentinel" where
  "add_run grow ops st = foldl (add_step grow) st ops"

text \<open>
  The cells of the store (array, index) a slice may still write by appending in place,
  and the cells within its capacity. Two slices are separate when neither can append
  into the capacity of the other.
\<close>

definition spare :: "slice \<Rightarrow> (nat \<times> nat) set" where
  "spare s = (case s of None \<Rightarrow> {} | Some sl \<Rightarrow> {arr sl} \<times> {off sl + len sl ..< off sl + cap sl})"

definition window :: "slice \<Rightarrow> (nat \<times> nat) set" where
  "window s = (case s of None \<Rightarrow> {} | Some sl \<Rightarrow> {arr sl} \<times> {off sl ..< off sl + cap sl})"

definition separate :: "slice \<Rightarrow> slice \<Rightarrow> bool" where
  "separate a b = (spare a \<inter> window b = {} \<and> spare b \<inter> window a = {})"

text \<open>Two controllers made one after the other from the same list of options.\<close>

definition two_controllers :: "store \<Rightarrow> Option list \<Rightarrow> store \<times> Sentinel \<times> Sentinel" where
  "two_controllers h opts =
     (let (h1, s1) = NewSentinel h opts; (h2, s2) = NewSentinel h1 opts in (h2, s1, s2))"

text \<open>What each of the two controllers shows through \<^verbatim>\<open>Replicas()\<close>.\<close>

definition first_replicas :: "store \<times> Sentinel \<times> Sentinel \<Rightarrow> Miniredis_ptr list" where
  "first_replicas st = Replicas_elems (fst st, fst (snd st))"

definition second_replicas :: "store \<times> Sentinel \<times> Sentinel \<Rightarrow> Miniredis_ptr list" where
  "second_replicas st = Replicas_elems (fst st, snd (snd st))"

section \<open>Concrete values for the examples\<close>

text \<open>A runtime that doubles the capacity when an append has to grow the array.\<close>

definition double_cap :: "nat \<Rightarrow> nat" where
  "double_cap c = 2 * c"

text \<open>
  A listener on port 6379, an operating system that gives it for an ephemeral-port
  request, one that gives it for a request of port 6379, and one that refuses every bind.
\<close>

definition srv6379 :: Server where
  "srv6379 = \<lparr>addr = \<lparr>tcp_IP = ''127.0.0.1'', tcp_Port = 6379\<rparr>, peers = 0, infoConns = 0,
               cmds = []\<rparr>"

definition bind_ephemeral :: bind where
  "bind_ephemeral a = (if a = ''127.0.0.1:0'' then Inr srv6379 else Inl ''bind: address already in use'')"

definition bind_6379 :: bind where
  "bind_6379 a = (if a = ''127.0.0.1:6379'' then Inr srv6379 else Inl ''bind: address already in use'')"

definition bind_refused :: bind where
  "bind_refused a = Inl ''bind: address already in use''"

text \<open>
  The slice \<^verbatim>\<open>[]*miniredis.Miniredis{}\<close> (empty, not nil) and the slice
  \<^verbatim>\<open>make([]*miniredis.Miniredis, 0, 1)\<close> (empty, with room for one element), both on
  the array at address 0.
\<close>

definition empty_literal :: slice where
  "empty_literal = Some \<lparr>arr = 0, off = 0, len = 0, cap = 0\<rparr>"

definition roomy_slice :: slice where
  "roomy_slice = Some \<lparr>arr = 0, off = 0, len = 0, cap = 1\<rparr>"

text \<open>
  A connection that has sent nothing yet, one that has authenticated, and a controller
  that requires the password \<^verbatim>\<open>secret\<close>.
\<close>

definition fresh_Peer :: Peer where
  "fresh_Peer = \<lparr>Ctx = None, written = []\<rparr>"

definition authenticated_Peer :: Peer where
  "authenticated_Peer = \<lparr>Ctx = Some \<lparr>authenticated = True\<rparr>, written = []\<rparr>"

definition secret_Sentinel :: Sentinel where
  "secret_Sentinel = RequireAuth ''secret'' (snd (NewSentinel [] []))"

section \<open>Slices and the store\<close>

lemma take_drop_update_outside:
  "i < k \<or> k + n \<le> i \<Longrightarrow> take n (drop k (xs[i := x])) = take n (drop k xs)"
  by (auto simp: drop_update_swap drop_update_cancel take_update_cancel)

lemma take_Suc_drop_update:
  assumes "k + n < length xs"
  shows "take (Suc n) (drop k (xs[k + n := x])) = take n (drop k xs) @ [x]"
proof -
  have "drop k (xs[k + n := x]) = (drop k xs)[n := x]"
    by (simp add: drop_update_swap)
  moreover have "n < length ((drop k xs)[n := x])"
    using assms by simp
  ultimately show ?thesis
    by (simp add: take_Suc_conv_app_nth take_update_cancel)
qed

lemma length_nth_update_cell:
  "k < length h \<Longrightarrow> length (h[i := (h ! i)[j := x]] ! k) = length (h ! k)"
  by (cases "k = i") simp_all

lemma wf_slice_extend: "wf_slice h s \<Longrightarrow> wf_slice (h @ k) s"
  by (auto simp: wf_slice_def nth_append split: option.splits)

lemma slice_elems_extend: "wf_slice h s \<Longrightarrow> slice_elems (h @ k) s = slice_elems h s"
  by (auto simp: wf_slice_def slice_elems_def nth_append split: option.splits)

lemma go_append_elems:
  assumes "wf_slice h a" and "go_append grow h a x = (h', a')"
  shows "wf_slice h' a' \<and> slice_elems h' a' = slice_elems h a @ [x]"
proof (cases a)
  case None
  with assms(2) show ?thesis
    by (auto simp: go_append_def Let_def wf_slice_def slice_elems_def)
next
  case (Some sl)
  show ?thesis
  proof (cases "len sl < cap sl")
    case True
    have b: "off sl + len sl < length (h ! arr sl)" "arr sl < length h"
      using assms(1) Some True by (auto simp: wf_slice_def)
    from assms(2) Some True have h': "h' = h[arr sl := (h ! arr sl)[off sl + len sl := x]]"
      and a': "a' = Some (sl\<lparr>len := len sl + 1\<rparr>)"
      by (auto simp: go_append_def)
    show ?thesis
      using assms(1) Some True b
      by (simp add: h' a' wf_slice_def slice_elems_def take_Suc_drop_update)
  next
    case False
    with assms Some show ?thesis
      by (auto simp: go_append_def Let_def wf_slice_def slice_elems_def)
  qed
qed

lemma fresh_other:
  assumes "wf_slice h b" and "arr al = length h"
  shows "wf_slice (h @ [n]) b \<and> slice_elems (h @ [n]) b = slice_elems h b \<and> separate (Some al) b"
proof -
  have "separate (Some al) b"
    using assms by (auto simp: separate_def spare_def window_def wf_slice_def split: option.splits)
  with assms(1) show ?thesis
    by (simp add: wf_slice_extend slice_elems_extend)
qed

lemma go_append_other:
  assumes "wf_slice h a" and "wf_slice h b" and "separate a b"
    and "go_append grow h a x = (h', a')"
  shows "wf_slice h' b \<and> slice_elems h' b = slice_elems h b \<and> separate a' b"
proof (cases a)
  case None
  from assms(4) None obtain n al where "h' = h @ [n]" "a' = Some al" "arr al = length h"
    by (auto simp: go_append_def Let_def)
  with assms(2) show ?thesis
    by (simp add: fresh_other)
next
  case (Some sl)
  show ?thesis
  proof (cases "len sl < cap sl")
    case True
    from assms(4) Some True have h': "h' = h[arr sl := (h ! arr sl)[off sl + len sl := x]]"
      and a': "a' = Some (sl\<lparr>len := len sl + 1\<rparr>)"
      by (auto simp: go_append_def)
    show ?thesis
    proof (cases b)
      case None
      then show ?thesis by (simp add: wf_slice_def slice_elems_def separate_def spare_def window_def)
    next
      case (Some bl)
      have "(arr sl, off sl + len sl) \<in> spare a"
        using \<open>a = Some sl\<close> True by (simp add: spare_def)
      with assms(3) have "(arr sl, off sl + len sl) \<notin> window b"
        unfolding separate_def by blast
      then have sep: "arr bl = arr sl \<Longrightarrow> off sl + len sl < off bl \<or> off bl + cap bl \<le> off sl + len sl"
        using Some by (auto simp: window_def)
      have wfb: "arr bl < length h" "len bl \<le> cap bl" "off bl + cap bl \<le> length (h ! arr bl)"
        using assms(2) Some by (auto simp: wf_slice_def)
      have 1: "wf_slice h' b"
        using wfb Some by (simp add: h' wf_slice_def length_nth_update_cell)
      have 2: "slice_elems h' b = slice_elems h b"
      proof (cases "arr bl = arr sl")
        case True
        with sep wfb have "off sl + len sl < off bl \<or> off bl + len bl \<le> off sl + len sl" by auto
        then show ?thesis
          using True wfb Some by (simp add: h' slice_elems_def take_drop_update_outside)
      next
        case False
        then show ?thesis using Some by (simp add: h' slice_elems_def)
      qed
      have "spare a' \<subseteq> spare a" and "window a' = window a"
        using \<open>a = Some sl\<close> by (auto simp: a' spare_def window_def)
      with assms(3) have 3: "separate a' b"
        unfolding separate_def by blast
      from 1 2 3 show ?thesis by simp
    qed
  next
    case False
    from assms(4) Some False obtain n al where "h' = h @ [n]" "a' = Some al" "arr al = length h"
      by (auto simp: go_append_def Let_def)
    with assms(2) show ?thesis
      by (simp add: fresh_other)
  qed
qed

lemma separate_sym: "separate a b = separate b a"
  by (auto simp: separate_def)

lemma AddReplica_frame:
  assumes "wf_slice h (Sentinel.replicas s)" and "wf_slice h (Sentinel.replicas t)"
    and "separate (Sentinel.replicas s) (Sentinel.replicas t)"
    and "AddReplica grow r (h, s) = (h', s')"
  shows "wf_slice h' (Sentinel.replicas s')" "wf_slice h' (Sentinel.replicas t)"
    "separate (Sentinel.replicas s') (Sentinel.replicas t)"
    "Replicas_elems (h', s') = Replicas_elems (h, s) @ [r]"
    "Replicas_elems (h', t) = Replicas_elems (h, t)"
    "Master s' = Master s"
proof -
  from assms(4) obtain rs where g: "go_append grow h (Sentinel.replicas s) r = (h', rs)"
    and s': "s' = s\<lparr>Sentinel.replicas := rs\<rparr>"
    by (auto simp: AddReplica_def split: prod.splits)
  from go_append_elems [OF assms(1) g] go_append_other [OF assms(1) assms(2) assms(3) g]
  show "wf_slice h' (Sentinel.replicas s')" "wf_slice h' (Sentinel.replicas t)"
    "separate (Sentinel.replicas s') (Sentinel.replicas t)"
    "Replicas_elems (h', s') = Replicas_elems (h, s) @ [r]"
    "Replicas_elems (h', t) = Replicas_elems (h, t)"
    "Master s' = Master s"
    by (simp_all add: s' Replicas_elems_def Replicas_def Master_def)
qed

lemma add_run_independent:
  assumes "wf_slice h (Sentinel.replicas s1)" and "wf_slice h (Sentinel.replicas s2)"
    and "separate (Sentinel.replicas s1) (Sentinel.replicas s2)"
    and "add_run grow ops (h, s1, s2) = (h', s1', s2')"
  shows "Replicas_elems (h', s1') = Replicas_elems (h, s1) @ map snd (filter fst ops)
       \<and> Replicas_elems (h', s2') = Replicas_elems (h, s2) @ map snd (filter (\<lambda>p. \<not> fst p) ops)
       \<and> Master s1' = Master s1 \<and> Master s2' = Master s2"
  using assms
proof (induction ops arbitrary: h s1 s2)
  case Nil
  then show ?case by (simp add: add_run_def)
next
  case (Cons p ops)
  obtain first r where p: "p = (first, r)" by (cases p)
  obtain k t1 t2 where st: "add_step grow (h, s1, s2) p = (k, t1, t2)"
    by (cases "add_step grow (h, s1, s2) p")
  from Cons.prems(4) st have run: "add_run grow ops (k, t1, t2) = (h', s1', s2')"
    by (simp add: add_run_def)
  show ?case
  proof (cases first)
    case True
    with st p have a: "AddReplica grow r (h, s1) = (k, t1)" and t2: "t2 = s2"
      by (auto split: prod.splits)
    note f = AddReplica_frame [OF Cons.prems(1) Cons.prems(2) Cons.prems(3) a]
    from Cons.IH [OF f(1) f(2) f(3) run [unfolded t2]] f(4) f(5) f(6) True p
    show ?thesis by simp
  next
    case False
    with st p have a: "AddReplica grow r (h, s2) = (k, t2)" and t1: "t1 = s1"
      by (auto split: prod.splits)
    from Cons.prems(3) have sep: "separate (Sentinel.replicas s2) (Sentinel.replicas s1)"
      by (simp add: separate_sym)
    note f = AddReplica_frame [OF Cons.prems(2) Cons.prems(1) sep a]
    from f(3) have sep': "separate (Sentinel.replicas s1) (Sentinel.replicas t2)"
      by (simp add: separate_sym)
    from Cons.IH [OF f(2) f(1) sep' run [unfolded t1]] f(4) f(5) f(6) False p
    show ?thesis by simp
  qed
qed

section \<open>Construction\<close>

lemma GetOpts_Nil: "GetOpts [] = defaultOptions"
  by (simp add: GetOpts_def copystructure_Copy_def)

lemma GetOpts_snoc: "GetOpts (opts @ [f]) = f (GetOpts opts)"
  by (simp add: GetOpts_def)

lemmas new_defs = NewSentinel_def GetOpts_def copystructure_Copy_def defaultOptions_def
  zero_Sentinel_def slice_literal1_def WithMaster_def WithReplicas_def Let_def

lemma Itoa_6379: "Itoa 6379 = ''6379''"
  by (simp add: Itoa_def digit_def)

lemma Itoa_0: "Itoa 0 = ''0''"
  by (simp add: Itoa_def digit_def)

text \<open>
  Claim C3, amended. For every list of options: when the resolved master is a handle
  and the resolved replica slice is nil (no replica list was given, or a nil one), the
  new controller's replicas are the one-element list of that master; when the resolved
  replica slice is not nil, the controller holds exactly that slice, and its replicas
  are the empty list if the slice is empty, also when a master is set.
\<close>

theorem NewSentinel_replicas:
  "(Options.master (GetOpts opts) = Some a \<and> Options.replicas (GetOpts opts) = None \<longrightarrow>
      Replicas_elems (NewSentinel h opts) = [Some a]) \<and>
   (\<forall>sl. Options.replicas (GetOpts opts) = Some sl \<longrightarrow>
      Replicas (snd (NewSentinel h opts)) = Some sl \<and>
      (len sl = 0 \<longrightarrow> Replicas_elems (NewSentinel h opts) = []))"
  by (simp add: Replicas_elems_def Replicas_def NewSentinel_def Let_def slice_literal1_def
      slice_elems_def split: prod.splits)

text \<open>
  The theorem of C3 at \<^verbatim>\<open>NewSentinel(WithMaster(m))\<close> and at
  \<^verbatim>\<open>NewSentinel(WithMaster(m), WithReplicas([]*miniredis.Miniredis{}))\<close>.
\<close>

theorem NewSentinel_replicas_witness:
  "Replicas_elems (NewSentinel [] [WithMaster (Some 7)]) = [Some 7] \<and>
   Replicas_elems (NewSentinel [[]] [WithMaster (Some 7), WithReplicas empty_literal]) = []"
  using NewSentinel_replicas [of "[WithMaster (Some 7)]" 7 "[]"]
    NewSentinel_replicas [of "[WithMaster (Some 7), WithReplicas empty_literal]" 7 "[[]]"]
  by (simp add: GetOpts_def copystructure_Copy_def defaultOptions_def WithMaster_def
      WithReplicas_def empty_literal_def)

text \<open>
  Claim C3 as stated fails for the empty replica list that is the nil slice:
  \<^verbatim>\<open>NewSentinel(WithMaster(m), WithReplicas(nil))\<close> gives an explicit replica list of
  length 0, and the controller's replicas are the master.
\<close>

theorem nil_replicas_counterexample:
  "slice_len None = 0 \<and>
   Replicas_elems (NewSentinel [] [WithMaster (Some 7), WithReplicas None]) = [Some 7]"
  by (simp add: slice_len_def Replicas_elems_def Replicas_def new_defs slice_elems_def)

text \<open>
  Claim C10. The method \<^verbatim>\<open>WithMaster(m)\<close> sets the master and leaves the replica
  slice and every other field as they were. A controller made with no options and then
  given a master by the method has no replicas, while a controller made with the master
  option has the master as its one replica.
\<close>

theorem WithMaster_method_frame:
  "Sentinel.replicas (Sentinel_WithMaster m s) = Sentinel.replicas s \<and>
   srv (Sentinel_WithMaster m s) = srv s \<and> port (Sentinel_WithMaster m s) = port s \<and>
   password (Sentinel_WithMaster m s) = password s \<and>
   Mutex (Sentinel_WithMaster m s) = Mutex s \<and>
   Master (Sentinel_WithMaster m s) = m \<and>
   Replicas (Sentinel_WithMaster (Some a) (snd (NewSentinel h []))) = None \<and>
   Replicas_elems (fst (NewSentinel h []), Sentinel_WithMaster (Some a) (snd (NewSentinel h []))) = [] \<and>
   Master (snd (NewSentinel h [WithMaster (Some a)])) = Some a \<and>
   Replicas_elems (NewSentinel h [WithMaster (Some a)]) = [Some a]"
  by (simp add: Sentinel_WithMaster_def Master_def Replicas_def Replicas_elems_def new_defs
      slice_elems_def)

section \<open>Lifecycle\<close>

text \<open>
  Claim C8. When \<^verbatim>\<open>Start\<close>, \<^verbatim>\<open>StartAddr\<close> or \<^verbatim>\<open>Restart\<close> returns an error, the
  error is the one of the bind and the controller is the one before the call: listener,
  port, password, master and replicas are unchanged.
\<close>

theorem failed_start_keeps_state:
  "(fst (Start NewServer s) = Some e \<longrightarrow>
      NewServer (''127.0.0.1:'' @ Itoa (port s)) = Inl e \<and> snd (Start NewServer s) = s) \<and>
   (fst (StartAddr NewServer a s) = Some e \<longrightarrow>
      NewServer a = Inl e \<and> snd (StartAddr NewServer a s) = s) \<and>
   (fst (Restart NewServer s) = Some e \<longrightarrow> snd (Restart NewServer s) = s)"
  by (simp add: Start_def StartAddr_def Restart_def start_def Let_def split: sum.splits)

text \<open>The theorem of C8 on a controller with a password, when every bind is refused.\<close>

theorem failed_start_keeps_state_witness:
  "fst (Start bind_refused secret_Sentinel) = Some ''bind: address already in use'' \<and>
   snd (Start bind_refused secret_Sentinel) = secret_Sentinel \<and>
   snd (StartAddr bind_refused '':6379'' secret_Sentinel) = secret_Sentinel \<and>
   snd (Restart bind_refused secret_Sentinel) = secret_Sentinel"
  using failed_start_keeps_state [of bind_refused secret_Sentinel "''bind: address already in use''" "'':6379''"]
  by (simp add: Start_def StartAddr_def Restart_def bind_refused_def)

text \<open>
  Claim C6. \<^verbatim>\<open>Close\<close> always returns, with no error. It leaves port, password, master
  and replicas unchanged and the listener field empty; the server it shuts down is the
  one the controller held. With no listener it takes and releases the lock and changes
  nothing else.
\<close>

theorem Close_frame:
  "srv (fst (Close s)) = None \<and> port (fst (Close s)) = port s \<and>
   password (fst (Close s)) = password s \<and>
   Sentinel.master (fst (Close s)) = Sentinel.master s \<and>
   Sentinel.replicas (fst (Close s)) = Sentinel.replicas s \<and>
   snd (Close s) = srv s \<and>
   (srv s = None \<longrightarrow> fst (Close s) = s\<lparr>Mutex := Mutex s @ [LockCall, UnlockCall]\<rparr>)"
  by (simp add: Close_def Lock_def Unlock_def Let_def split: option.splits)

text \<open>The theorem of C6 on a controller that was never started.\<close>

theorem Close_frame_witness:
  "fst (Close (snd (NewSentinel [] [])))
     = (snd (NewSentinel [] []))\<lparr>Mutex := [LockCall, UnlockCall]\<rparr> \<and>
   snd (Close (snd (NewSentinel [] []))) = None"
  using Close_frame [of "snd (NewSentinel [] [])"]
  by (simp add: new_defs)

text \<open>
  Claim C5. After a successful \<^verbatim>\<open>Start\<close>, a \<^verbatim>\<open>Close\<close> and a successful
  \<^verbatim>\<open>Restart\<close>, the controller holds a listener on the port the first start bound,
  and password, master and replicas are those before the first start. The operating
  system is taken to bind the port it is asked for.
\<close>

theorem restart_same_port:
  assumes "Start ns1 s = (None, s1)" and "Close s1 = (s2, closed)"
    and "Restart ns2 s2 = (None, s3)"
    and "\<forall>v. ns2 (''127.0.0.1:'' @ Itoa (port s1)) = Inr v \<longrightarrow> tcp_Port (addr v) = port s1"
  shows "\<exists>v1 v3. srv s1 = Some v1 \<and> srv s3 = Some v3 \<and> port s1 = tcp_Port (addr v1) \<and>
           tcp_Port (addr v3) = tcp_Port (addr v1) \<and> port s3 = port s1 \<and>
           password s3 = password s \<and> Sentinel.master s3 = Sentinel.master s \<and>
           Sentinel.replicas s3 = Sentinel.replicas s"
proof -
  from assms(1) obtain v1 where v1: "ns1 (''127.0.0.1:'' @ Itoa (port s)) = Inr v1"
    and s1: "s1 = snd (start v1 s)"
    by (auto simp: Start_def split: sum.splits)
  from assms(2) have s2: "s2 = fst (Close s1)" by simp
  have p2: "port s2 = port s1" "password s2 = password s1"
    "Sentinel.master s2 = Sentinel.master s1" "Sentinel.replicas s2 = Sentinel.replicas s1"
    by (simp_all add: s2 Close_def Lock_def Unlock_def Let_def split: option.splits)
  from assms(3) obtain v3 where v3: "ns2 (''127.0.0.1:'' @ Itoa (port s2)) = Inr v3"
    and s3: "s3 = snd (start v3 s2)"
    by (auto simp: Restart_def Start_def split: sum.splits)
  from v3 assms(4) p2(1) have same: "tcp_Port (addr v3) = port s1" by simp
  have a1: "srv s1 = Some (v1\<lparr>cmds := cmds v1 @ [''PING'']\<rparr>)" "port s1 = tcp_Port (addr v1)"
    "password s1 = password s" "Sentinel.master s1 = Sentinel.master s"
    "Sentinel.replicas s1 = Sentinel.replicas s"
    by (simp_all add: s1 start_def commandsPing_def Lock_def Unlock_def Let_def)
  have a3: "srv s3 = Some (v3\<lparr>cmds := cmds v3 @ [''PING'']\<rparr>)" "port s3 = tcp_Port (addr v3)"
    "password s3 = password s2" "Sentinel.master s3 = Sentinel.master s2"
    "Sentinel.replicas s3 = Sentinel.replicas s2"
    by (simp_all add: s3 start_def commandsPing_def Lock_def Unlock_def Let_def)
  from a1 a3 p2 same show ?thesis by simp
qed

text \<open>
  The theorem of C5 on a controller with a password: the first start gets port 6379
  from an ephemeral-port request, the restart asks for 6379.
\<close>

theorem restart_same_port_witness:
  "port (snd (Restart bind_6379 (fst (Close (snd (Start bind_ephemeral secret_Sentinel)))))) = 6379 \<and>
   password (snd (Restart bind_6379 (fst (Close (snd (Start bind_ephemeral secret_Sentinel))))))
     = ''secret''"
proof -
  let ?s1 = "snd (Start bind_ephemeral secret_Sentinel)"
  let ?s2 = "fst (Close ?s1)"
  let ?s3 = "snd (Restart bind_6379 ?s2)"
  have p1: "port ?s1 = 6379" "port secret_Sentinel = 0" "password secret_Sentinel = ''secret''"
    by (simp_all add: Start_def start_def bind_ephemeral_def secret_Sentinel_def new_defs
        RequireAuth_def Lock_def Unlock_def Itoa_0 srv6379_def commandsPing_def)
  have h1: "Start bind_ephemeral secret_Sentinel = (None, ?s1)"
    by (simp add: Start_def start_def bind_ephemeral_def p1 Itoa_0)
  have h2: "Close ?s1 = (?s2, snd (Close ?s1))"
    by simp
  have p2: "port ?s2 = 6379"
    using p1(1) by (simp add: Close_def Lock_def Unlock_def Let_def split: option.splits)
  have "\<And>t. port t = 6379 \<Longrightarrow> fst (Restart bind_6379 t) = None"
    by (simp add: Restart_def Start_def start_def bind_6379_def Itoa_6379 Let_def)
  from this [OF p2] have h3: "Restart bind_6379 ?s2 = (None, ?s3)"
    by (simp add: prod_eq_iff)
  have h4: "\<forall>v. bind_6379 (''127.0.0.1:'' @ Itoa (port ?s1)) = Inr v \<longrightarrow> tcp_Port (addr v) = port ?s1"
    by (auto simp: p1 Itoa_6379 bind_6379_def srv6379_def)
  from restart_same_port [OF h1 h2 h3 h4] p1 show ?thesis by auto
qed

section \<open>Introspection\<close>

text \<open>
  Claim C2, amended. On a controller with no listener, \<^verbatim>\<open>Addr\<close>, \<^verbatim>\<open>Host\<close>,
  \<^verbatim>\<open>Port\<close>, \<^verbatim>\<open>CurrentConnectionCount\<close> and \<^verbatim>\<open>TotalConnectionCount\<close> each panic
  with a nil pointer dereference; with a listener they return its address, host, port
  and counts. A new controller and a closed one have no listener.
\<close>

theorem introspection_needs_listener:
  "(srv s = None \<longrightarrow>
      fst (Addr s) = Inl NilDereference \<and> fst (Host s) = Inl NilDereference \<and>
      fst (Port s) = Inl NilDereference \<and>
      fst (CurrentConnectionCount s) = Inl NilDereference \<and>
      fst (TotalConnectionCount s) = Inl NilDereference) \<and>
   (\<forall>v. srv s = Some v \<longrightarrow>
      fst (Addr s) = Inr (TCPAddr_String (addr v)) \<and> fst (Host s) = Inr (tcp_IP (addr v)) \<and>
      fst (Port s) = Inr (Itoa (tcp_Port (addr v))) \<and>
      fst (CurrentConnectionCount s) = Inr (int (peers v)) \<and>
      fst (TotalConnectionCount s) = Inr (infoConns v)) \<and>
   srv (snd (NewSentinel h opts)) = None \<and> srv (fst (Close s)) = None"
  by (simp add: Addr_def Host_def Port_def CurrentConnectionCount_def TotalConnectionCount_def
      Lock_def Unlock_def Close_def NewSentinel_def zero_Sentinel_def Let_def
      split: option.splits prod.splits)

text \<open>
  The theorem of C2 on a new controller, on a started and closed one, and on a started
  one.
\<close>

theorem introspection_needs_listener_witness:
  "fst (Addr (snd (NewSentinel [] []))) = Inl NilDereference \<and>
   fst (Port (fst (Close (snd (Start bind_ephemeral (snd (NewSentinel [] []))))))) = Inl NilDereference \<and>
   fst (Addr (snd (Start bind_ephemeral (snd (NewSentinel [] []))))) = Inr ''127.0.0.1:6379''"
  using introspection_needs_listener [of "snd (NewSentinel [] [])" "[]" "[]"]
    introspection_needs_listener [of "fst (Close (snd (Start bind_ephemeral (snd (NewSentinel [] [])))))"]
    introspection_needs_listener [of "snd (Start bind_ephemeral (snd (NewSentinel [] [])))"]
  by (simp add: new_defs Start_def start_def bind_ephemeral_def Itoa_0 Itoa_6379 srv6379_def
      commandsPing_def Lock_def Unlock_def TCPAddr_String_def JoinHostPort_def)

text \<open>
  Claim C2 as stated fails on the controller \<^verbatim>\<open>NewSentinel()\<close>: each of the five
  queries panics, where the claim has an error or a zero value and no panic.
\<close>

theorem never_started_Addr_panics:
  "fst (Addr (snd (NewSentinel [] []))) = Inl NilDereference \<and>
   fst (Host (snd (NewSentinel [] []))) = Inl NilDereference \<and>
   fst (Port (snd (NewSentinel [] []))) = Inl NilDereference \<and>
   fst (CurrentConnectionCount (snd (NewSentinel [] []))) = Inl NilDereference \<and>
   fst (TotalConnectionCount (snd (NewSentinel [] []))) = Inl NilDereference"
  by (simp add: Addr_def Host_def Port_def CurrentConnectionCount_def TotalConnectionCount_def
      new_defs Lock_def)

section \<open>The lock\<close>

text \<open>
  Claim C4. The claim has every accessor and mutator take the controller's lock. The
  mutators \<^verbatim>\<open>WithMaster\<close>, \<^verbatim>\<open>SetReplicas\<close> and \<^verbatim>\<open>AddReplica\<close> make no call on
  the mutex at all, while \<^verbatim>\<open>RequireAuth\<close>, which also writes one field, locks and
  unlocks it, as do \<^verbatim>\<open>start\<close>, \<^verbatim>\<open>Close\<close>, \<^verbatim>\<open>Addr\<close> and \<^verbatim>\<open>handleAuth\<close>.
\<close>

theorem topology_mutators_skip_lock:
  "Mutex (Sentinel_WithMaster m s) = Mutex s \<and>
   Mutex (SetReplicas rs s) = Mutex s \<and>
   Mutex (snd (AddReplica grow r (h, s))) = Mutex s \<and>
   Mutex (RequireAuth pw s) = Mutex s @ [LockCall, UnlockCall] \<and>
   Mutex (snd (start v s)) = Mutex s @ [LockCall, UnlockCall] \<and>
   Mutex (fst (Close s)) = Mutex s @ [LockCall, UnlockCall] \<and>
   Mutex (snd (Addr s)) = Mutex s @ [LockCall, UnlockCall] \<and>
   Mutex (fst (snd (handleAuth s c))) = Mutex s @ [LockCall, UnlockCall]"
  by (simp add: Sentinel_WithMaster_def SetReplicas_def AddReplica_def RequireAuth_def
      start_def commandsPing_def Close_def Addr_def handleAuth_def getCtx_def Let_def
      Lock_def Unlock_def split: prod.splits option.splits)

section \<open>The auth gate\<close>

text \<open>
  Claim C1. With an empty password \<^verbatim>\<open>handleAuth\<close> allows and leaves the connection
  as it is, with nothing written. With a password it allows exactly the connections
  whose context is authenticated, writing nothing; to the others it writes the one
  error reply \<^verbatim>\<open>NOAUTH Authentication required.\<close> and denies.
\<close>

theorem handleAuth_gate:
  "(password s = [] \<longrightarrow> fst (handleAuth s c) \<and> snd (snd (handleAuth s c)) = c) \<and>
   (password s \<noteq> [] \<longrightarrow>
      fst (handleAuth s c) = is_authenticated c \<and>
      (is_authenticated c \<longrightarrow> written (snd (snd (handleAuth s c))) = written c) \<and>
      (\<not> is_authenticated c \<longrightarrow>
         written (snd (snd (handleAuth s c)))
           = written c @ [ErrorReply ''NOAUTH Authentication required.'']))"
  by (simp add: handleAuth_def Lock_def Unlock_def getCtx_def is_authenticated_def
      WriteError_def Let_def split: option.splits)

text \<open>
  The theorem of C1 on a new connection without and with a password, and on an
  authenticated connection with a password.
\<close>

theorem handleAuth_gate_witness:
  "fst (handleAuth (snd (NewSentinel [] [])) fresh_Peer) \<and>
   snd (snd (handleAuth (snd (NewSentinel [] [])) fresh_Peer)) = fresh_Peer \<and>
   \<not> fst (handleAuth secret_Sentinel fresh_Peer) \<and>
   written (snd (snd (handleAuth secret_Sentinel fresh_Peer)))
     = [ErrorReply ''NOAUTH Authentication required.''] \<and>
   fst (handleAuth secret_Sentinel (setAuthenticated fresh_Peer)) \<and>
   written (snd (snd (handleAuth secret_Sentinel (setAuthenticated fresh_Peer)))) = []"
  using handleAuth_gate [of "snd (NewSentinel [] [])" fresh_Peer]
    handleAuth_gate [of secret_Sentinel fresh_Peer]
    handleAuth_gate [of secret_Sentinel "setAuthenticated fresh_Peer"]
  by (simp add: secret_Sentinel_def fresh_Peer_def new_defs RequireAuth_def Lock_def Unlock_def
      is_authenticated_def setAuthenticated_def getCtx_def)

lemma core_step_authenticated:
  "is_authenticated c \<Longrightarrow> is_authenticated (snd (snd (core_step grow (h, s, c) x)))"
  by (cases x)
    (auto simp: handleAuth_def getCtx_def setAuthenticated_def is_authenticated_def Let_def
      WriteError_def split: option.splits)

text \<open>
  Claim C7. A connection that is authenticated stays authenticated through every
  sequence of operations of the package on its controller and on itself: password
  changes, auth checks, \<^verbatim>\<open>getCtx\<close>, \<^verbatim>\<open>setAuthenticated\<close>, topology changes,
  starts, restarts, \<^verbatim>\<open>Close\<close> and the queries. After the sequence the auth check
  still allows it and writes no reply, whatever the password has become.
\<close>

theorem authenticated_monotonic:
  assumes "is_authenticated c" and "core_run grow ops (h, s, c) = (h', s', c')"
  shows "is_authenticated c' \<and> fst (handleAuth s' c') \<and>
         written (snd (snd (handleAuth s' c'))) = written c'"
proof -
  have "is_authenticated (snd (snd (core_run grow ops (h, s, c))))"
    using assms(1)
  proof (induction ops arbitrary: h s c)
    case Nil
    then show ?case by (simp add: core_run_def)
  next
    case (Cons x ops)
    obtain k t d where st: "core_step grow (h, s, c) x = (k, t, d)"
      by (cases "core_step grow (h, s, c) x")
    with core_step_authenticated [OF Cons.prems, of grow h s x] have "is_authenticated d"
      by simp
    from Cons.IH [OF this, of k t] st show ?case by (simp add: core_run_def)
  qed
  with assms(2) have a: "is_authenticated c'" by simp
  then show ?thesis
    by (auto simp: handleAuth_def getCtx_def is_authenticated_def Let_def Lock_def
        split: option.splits)
qed

text \<open>
  The theorem of C7 on an authenticated connection, through two password changes, an
  auth check, a new replica, a refused restart and a close, and through one password
  change.
\<close>

theorem authenticated_monotonic_witness:
  "is_authenticated authenticated_Peer \<and>
   is_authenticated (snd (snd (core_run double_cap
      [OpRequireAuth ''a'', OpHandleAuth, OpAddReplica (Some 7), OpRequireAuth ''b'',
       OpRestart bind_refused, OpClose]
      ([], secret_Sentinel, authenticated_Peer)))) \<and>
   fst (handleAuth (RequireAuth ''b'' secret_Sentinel) authenticated_Peer)"
proof -
  let ?ops = "[OpRequireAuth ''a'', OpHandleAuth, OpAddReplica (Some 7), OpRequireAuth ''b'',
       OpRestart bind_refused, OpClose]"
  have a: "is_authenticated authenticated_Peer"
    by (simp add: is_authenticated_def authenticated_Peer_def)
  obtain h' s' c' where r: "core_run double_cap ?ops ([], secret_Sentinel, authenticated_Peer)
      = (h', s', c')"
    by (cases "core_run double_cap ?ops ([], secret_Sentinel, authenticated_Peer)")
  have r2: "core_run double_cap [OpRequireAuth ''b''] ([], secret_Sentinel, authenticated_Peer)
      = ([], RequireAuth ''b'' secret_Sentinel, authenticated_Peer)"
    by (simp add: core_run_def)
  from authenticated_monotonic [OF a r] authenticated_monotonic [OF a r2] a r
  show ?thesis by simp
qed

section \<open>Two controllers from the same options\<close>

lemma two_controllers_ready:
  assumes "wf_slice h (Options.replicas (GetOpts opts))"
    and "slice_len (Options.replicas (GetOpts opts)) = slice_cap (Options.replicas (GetOpts opts))"
    and "two_controllers h opts = (h2, s1, s2)"
  shows "wf_slice h2 (Sentinel.replicas s1) \<and> wf_slice h2 (Sentinel.replicas s2) \<and>
         separate (Sentinel.replicas s1) (Sentinel.replicas s2) \<and>
         Replicas_elems (h2, s1) = Replicas_elems (h2, s2) \<and> Master s1 = Master s2"
proof (cases "Options.replicas (GetOpts opts)")
  case None
  with assms(3) show ?thesis
    by (cases "Options.master (GetOpts opts)")
      (auto simp: two_controllers_def NewSentinel_def Let_def slice_literal1_def wf_slice_def
        separate_def spare_def window_def Replicas_elems_def Replicas_def slice_elems_def
        Master_def nth_append zero_Sentinel_def)
next
  case (Some sl)
  from assms(3) Some obtain k where h2: "h2 = h @ k"
    and r: "Sentinel.replicas s1 = Some sl" "Sentinel.replicas s2 = Some sl"
    and m: "Master s1 = Master s2"
    by (cases "Options.master (GetOpts opts)")
      (auto simp: two_controllers_def NewSentinel_def Let_def slice_literal1_def Master_def)
  from assms(1) Some h2 have wf: "wf_slice h2 (Some sl)"
    by (simp add: wf_slice_extend)
  from assms(2) Some have "spare (Some sl) = {}"
    by (simp add: spare_def slice_len_def slice_cap_def)
  then have "separate (Some sl) (Some sl)"
    by (simp add: separate_def)
  with wf r m show ?thesis
    by (simp add: Replicas_elems_def Replicas_def)
qed

text \<open>
  Claim C9, amended. The options start from defaults with a nil master and a nil
  replica slice. When the replica slice the options resolve to is nil or full (length
  equal to capacity), two controllers made from the same list of options start with the
  same replicas, and after every sequence of \<^verbatim>\<open>AddReplica\<close> calls on either of them
  each controller's replicas are its first replicas followed by the handles added to
  that same controller, in order, and each master is unchanged.
\<close>

theorem same_options_independent:
  assumes "wf_slice h (Options.replicas (GetOpts opts))"
    and "slice_len (Options.replicas (GetOpts opts)) = slice_cap (Options.replicas (GetOpts opts))"
  shows "first_replicas (add_run grow ops (two_controllers h opts))
           = first_replicas (two_controllers h opts) @ map snd (filter fst ops) \<and>
         second_replicas (add_run grow ops (two_controllers h opts))
           = second_replicas (two_controllers h opts) @ map snd (filter (\<lambda>p. \<not> fst p) ops) \<and>
         Master (fst (snd (add_run grow ops (two_controllers h opts))))
           = Master (fst (snd (two_controllers h opts))) \<and>
         Master (snd (snd (add_run grow ops (two_controllers h opts))))
           = Master (snd (snd (two_controllers h opts))) \<and>
         first_replicas (two_controllers h opts) = second_replicas (two_controllers h opts)"
proof -
  obtain h2 s1 s2 where tc: "two_controllers h opts = (h2, s1, s2)"
    by (cases "two_controllers h opts")
  obtain h' s1' s2' where run: "add_run grow ops (h2, s1, s2) = (h', s1', s2')"
    by (cases "add_run grow ops (h2, s1, s2)")
  from two_controllers_ready [OF assms tc]
  have ready: "wf_slice h2 (Sentinel.replicas s1)" "wf_slice h2 (Sentinel.replicas s2)"
    "separate (Sentinel.replicas s1) (Sentinel.replicas s2)"
    "Replicas_elems (h2, s1) = Replicas_elems (h2, s2)"
    by simp_all
  from add_run_independent [OF ready(1) ready(2) ready(3) run] ready(4)
  show ?thesis
    by (simp add: tc run first_replicas_def second_replicas_def)
qed

text \<open>
  The theorem of C9 on two controllers made with \<^verbatim>\<open>WithMaster(m)\<close>, with one
  handle added to each.
\<close>

theorem same_options_independent_witness:
  "first_replicas (add_run double_cap [(True, Some 5), (False, Some 6)]
      (two_controllers [] [WithMaster (Some 7)])) = [Some 7, Some 5] \<and>
   second_replicas (add_run double_cap [(True, Some 5), (False, Some 6)]
      (two_controllers [] [WithMaster (Some 7)])) = [Some 7, Some 6]"
proof -
  have o: "Options.replicas (GetOpts [WithMaster (Some 7)]) = None"
    by (simp add: GetOpts_def copystructure_Copy_def defaultOptions_def WithMaster_def)
  have h1: "wf_slice [] (Options.replicas (GetOpts [WithMaster (Some 7)]))"
    by (simp add: o wf_slice_def)
  have h2: "slice_len (Options.replicas (GetOpts [WithMaster (Some 7)]))
              = slice_cap (Options.replicas (GetOpts [WithMaster (Some 7)]))"
    by (simp add: o slice_len_def slice_cap_def)
  have init: "first_replicas (two_controllers [] [WithMaster (Some 7)]) = [Some 7]"
    "second_replicas (two_controllers [] [WithMaster (Some 7)]) = [Some 7]"
    by (simp_all add: first_replicas_def second_replicas_def two_controllers_def new_defs
        Replicas_elems_def Replicas_def slice_elems_def)
  from same_options_independent [OF h1 h2, of double_cap "[(True, Some 5), (False, Some 6)]"] init
  show ?thesis by simp
qed

text \<open>
  Claim C9 as stated fails when the options carry a replica slice with spare capacity:
  both controllers append into the same backing array. After \<^verbatim>\<open>AddReplica(5)\<close> on the
  first controller its replicas are \<open>[5]\<close>; \<^verbatim>\<open>AddReplica(6)\<close> on the second then
  turns them into \<open>[6]\<close>.
\<close>

theorem shared_capacity_counterexample:
  "first_replicas (add_run double_cap [(True, Some 5)]
      (two_controllers [[None]] [WithReplicas roomy_slice])) = [Some 5] \<and>
   first_replicas (add_run double_cap [(True, Some 5), (False, Some 6)]
      (two_controllers [[None]] [WithReplicas roomy_slice])) = [Some 6]"
  by (simp add: first_replicas_def add_run_def two_controllers_def new_defs roomy_slice_def
      AddReplica_def go_append_def Replicas_elems_def Replicas_def slice_elems_def)

end
